theory Spec2Isabelle
  imports Complex_Main "HOL-Library.AList" "HOL-Library.Char_ord" "HOL-Library.List_Lexorder"
begin

section \<open>Strings\<close>

text \<open>
  A Python \<open>str\<close> is modelled as a \<open>string\<close>: one \<open>char\<close> stands for one code point
  (so the model covers the code points below 256), \<open>length\<close> is Python's \<open>len\<close>, and
  the order on strings is the lexicographic order on code points that Python's \<open><\<close> and
  \<open>sorted\<close> use.
\<close>

definition is_digit :: "char \<Rightarrow> bool" where
  "is_digit c = (CHR ''0'' \<le> c \<and> c \<le> CHR ''9'')"

definition digit_val :: "char \<Rightarrow> nat" where
  "digit_val c = of_char c - 48"

definition number :: "string \<Rightarrow> nat" where
  "number ds = foldl (\<lambda>n c. 10 * n + digit_val c) 0 ds"

definition digit_char :: "nat \<Rightarrow> char" where
  "digit_char n = char_of (48 + n mod 10)"

primrec digits :: "nat \<Rightarrow> nat \<Rightarrow> string" where
  "digits 0 n = []"
| "digits (Suc k) n = digits k (n div 10) @ [digit_char n]"

section \<open>The Qt date and time values the source computes with\<close>

text \<open>
  \<open>prepare_rag_context\<close> calls \<open>QDateTime.fromString\<close>, \<open>daysTo\<close>, \<open>addDays\<close> and
  \<open>toString\<close>. A valid \<open>QDateTime\<close> is a Julian day number and a time of day; the invalid
  \<open>QDateTime\<close> (what \<open>fromString\<close> returns for a text that does not match the format) is
  \<open>None\<close>. None of these calls raises. Time zones and daylight-saving transitions are
  not part of the model.
\<close>

record datetime_parts =
  julian_day :: int
  hour :: nat
  minute :: nat
  second :: nat

type_synonym QDateTime = "datetime_parts option"

text \<open>The proleptic Gregorian calendar of \<open>QDate\<close>: there is no year 0.\<close>

definition isLeapYear :: "int \<Rightarrow> bool" where
  "isLeapYear year =
     (let y = (if year < 1 then year + 1 else year)
      in y mod 4 = 0 \<and> (y mod 100 \<noteq> 0 \<or> y mod 400 = 0))"

definition daysInMonth :: "int \<Rightarrow> int \<Rightarrow> int" where
  "daysInMonth month year =
     (if month < 1 \<or> 12 < month then 0
      else if month = 2 then (if isLeapYear year then 29 else 28)
      else if month = 4 \<or> month = 6 \<or> month = 9 \<or> month = 11 then 30
      else 31)"

definition validParts :: "int \<Rightarrow> int \<Rightarrow> int \<Rightarrow> bool" where
  "validParts year month day =
     (year \<noteq> 0 \<and> 0 < day \<and> day \<le> daysInMonth month year)"

definition julianFromParts :: "int \<Rightarrow> int \<Rightarrow> int \<Rightarrow> int" where
  "julianFromParts year month day =
     (let year1 = (if year < 0 then year + 1 else year);
          a = (if month < 3 then 1 else 0);
          y = year1 + 4800 - a;
          m = month + 12 * a - 3
      in day + (153 * m + 2) div 5 - 32045 + 365 * y + y div 4 - y div 100 + y div 400)"

definition partsFromJulian :: "int \<Rightarrow> int \<times> int \<times> int" where
  "partsFromJulian jd =
     (let a = jd + 32044;
          b = (4 * a + 3) div 146097;
          c = a - (146097 * b) div 4;
          d = (4 * c + 3) div 1461;
          e = c - (1461 * d) div 4;
          m = (5 * e + 2) div 153;
          y = 100 * b + d - 4800 + m div 10
      in (if 0 < y then y else y - 1, m + 3 - 12 * (m div 10), e - (153 * m + 2) div 5 + 1))"

text \<open>
  The fields of a text in the format \<open>yyyy-MM-dd HH:mm\<close> after its sign: four digits of
  year, two of month, two of day, two of hour and two of minute with the separators of
  the format between them, naming a date of the calendar and a time of the day. The
  flag tells that a minus sign came before the year.
\<close>

fun parse_fields :: "bool \<Rightarrow> string \<Rightarrow> QDateTime" where
  "parse_fields negative [y1, y2, y3, y4, s1, m1, m2, s2, d1, d2, s3, h1, h2, s4, n1, n2] =
     (let year = (if negative then - int (number [y1, y2, y3, y4])
                  else int (number [y1, y2, y3, y4]))
      in if list_all is_digit [y1, y2, y3, y4, m1, m2, d1, d2, h1, h2, n1, n2]
            \<and> s1 = CHR ''-'' \<and> s2 = CHR ''-'' \<and> s3 = CHR '' '' \<and> s4 = CHR '':''
            \<and> validParts year (int (number [m1, m2])) (int (number [d1, d2]))
            \<and> number [h1, h2] < 24 \<and> number [n1, n2] < 60
         then Some \<lparr>julian_day = julianFromParts year (int (number [m1, m2]))
                       (int (number [d1, d2])),
                    hour = number [h1, h2], minute = number [n1, n2], second = 0\<rparr>
         else None)"
| "parse_fields negative _ = None"

declare parse_fields.simps [simp del]

text \<open>
  \<open>QDateTime.fromString(text, "yyyy-MM-dd HH:mm")\<close>: the year of \<open>yyyy\<close> is four
  digits, with a minus sign before them for a negative year. Anything that is not of
  this form gives the invalid \<open>QDateTime\<close>.
\<close>

definition fromString :: "string \<Rightarrow> QDateTime" where
  "fromString text =
     (case text of
        [] \<Rightarrow> None
      | c # rest \<Rightarrow>
          if c = CHR ''-'' then parse_fields True rest else parse_fields False text)"

text \<open>\<open>a.daysTo(b)\<close>: the difference of the dates in days, and 0 when either is invalid.\<close>

fun daysTo :: "QDateTime \<Rightarrow> QDateTime \<Rightarrow> int" where
  "daysTo (Some a) (Some b) = julian_day b - julian_day a"
| "daysTo _ _ = 0"

fun addDays :: "QDateTime \<Rightarrow> int \<Rightarrow> QDateTime" where
  "addDays (Some a) n = Some (a\<lparr>julian_day := julian_day a + n\<rparr>)"
| "addDays None n = None"

text \<open>The decimal digits of a number, and the same filled with zeros to four places.\<close>

fun decimal :: "nat \<Rightarrow> string" where
  "decimal n = (if n < 10 then [digit_char n] else decimal (n div 10) @ [digit_char n])"

declare decimal.simps [simp del]

definition pad4 :: "string \<Rightarrow> string" where
  "pad4 ds = replicate (4 - length ds) CHR ''0'' @ ds"

text \<open>
  The year of \<open>yyyy\<close> in \<open>toString\<close>: four digits, a minus sign before them for a
  negative year, and a plus sign before the digits of a year beyond 9999.
\<close>

definition year_text :: "int \<Rightarrow> string" where
  "year_text y =
     (if y < 0 then ''-'' @ pad4 (decimal (nat (- y)))
      else if 9999 < y then ''+'' @ decimal (nat y)
      else pad4 (decimal (nat y)))"

text \<open>\<open>toString("yyyy-MM-dd")\<close>; the invalid \<open>QDateTime\<close> prints as the empty string.\<close>

fun toString_date :: "QDateTime \<Rightarrow> string" where
  "toString_date (Some a) =
     (case partsFromJulian (julian_day a) of
        (y, m, d) \<Rightarrow> year_text y @ ''-'' @ digits 2 (nat m) @ ''-'' @ digits 2 (nat d))"
| "toString_date None = []"

text \<open>\<open>toString("yyyy-MM-dd HH:mm:ss")\<close>.\<close>

fun toString_datetime :: "QDateTime \<Rightarrow> string" where
  "toString_datetime (Some a) =
     toString_date (Some a) @ '' '' @ digits 2 (hour a) @ '':'' @ digits 2 (minute a)
       @ '':'' @ digits 2 (second a)"
| "toString_datetime None = []"

section \<open>The retrieval context\<close>

text \<open>
  The dictionaries \<open>diary_entries\<close> and \<open>calendar_events\<close> are association lists in
  insertion order, the order in which \<open>items()\<close> yields them. The context is the
  dictionary \<open>prepare_rag_context\<close> returns, its items records.
\<close>

type_synonym entries = "(string \<times> string) list"

record recent_item =
  datetime :: string
  content :: string
  days_ago :: int

record upcoming_item =
  event_datetime :: string
  event :: string
  days_until :: int
  is_urgent :: bool

record date_range_item =
  range_start :: string
  range_end :: string

record rag_context =
  current_datetime :: string
  recent_events :: "recent_item list"
  upcoming_events :: "upcoming_item list"
  date_range :: date_range_item

text \<open>The first loop of \<open>prepare_rag_context\<close>, over the diary entries.\<close>

fun collect_recent :: "QDateTime \<Rightarrow> entries \<Rightarrow> recent_item list" where
  "collect_recent now [] = []"
| "collect_recent now ((datetime_str, entry) # rest) =
     (let days_difference = daysTo (fromString datetime_str) now
      in (if -7 \<le> days_difference \<and> days_difference \<le> 0
          then [\<lparr>datetime = datetime_str, content = entry, days_ago = \<bar>days_difference\<bar>\<rparr>]
          else []) @ collect_recent now rest)"

text \<open>The second loop, over the calendar events.\<close>

fun collect_upcoming :: "QDateTime \<Rightarrow> entries \<Rightarrow> upcoming_item list" where
  "collect_upcoming now [] = []"
| "collect_upcoming now ((datetime_str, ev) # rest) =
     (let days_difference = daysTo now (fromString datetime_str)
      in (if 0 \<le> days_difference \<and> days_difference \<le> 14
          then [\<lparr>event_datetime = datetime_str, event = ev, days_until = days_difference,
                  is_urgent = (days_difference \<le> 3)\<rparr>]
          else []) @ collect_upcoming now rest)"

text \<open>\<open>list.sort(key=...)\<close> is a stable sort, as \<open>sort_key\<close> is.\<close>

definition prepare_rag_context :: "QDateTime \<Rightarrow> entries \<Rightarrow> entries \<Rightarrow> rag_context" where
  "prepare_rag_context now diary_entries calendar_events =
     \<lparr>current_datetime = toString_datetime now,
      recent_events = sort_key datetime (collect_recent now diary_entries),
      upcoming_events = sort_key event_datetime (collect_upcoming now calendar_events),
      date_range = \<lparr>range_start = toString_date (addDays now (-7)),
                    range_end = toString_date (addDays now 14)\<rparr>\<rparr>"

section \<open>The prompt formatter\<close>

text \<open>\<open>sep.join(parts)\<close>.\<close>

fun str_join :: "string \<Rightarrow> string list \<Rightarrow> string" where
  "str_join sep [] = []"
| "str_join sep [x] = x"
| "str_join sep (x # y # ys) = x @ sep @ str_join sep (y # ys)"

definition newline :: string where
  "newline = [CHR 0x0A]"

definition format_diary_entry :: "recent_item \<Rightarrow> string" where
  "format_diary_entry entry =
     ''['' @ datetime entry @ ''] '' @ take 200 (content entry)
       @ (if 200 < length (content entry) then ''...'' else [])"

definition format_calendar_event :: "upcoming_item \<Rightarrow> string" where
  "format_calendar_event ev = ''['' @ event_datetime ev @ ''] '' @ event ev"

record formatted_context =
  formatted_current_datetime :: string
  formatted_date_range :: date_range_item
  formatted_diary_entries :: string
  formatted_calendar_events :: string

text \<open>\<open>sorted(..., key=...)\<close> is a stable sort as well.\<close>

definition format_rag_context :: "rag_context \<Rightarrow> formatted_context" where
  "format_rag_context context =
     \<lparr>formatted_current_datetime = current_datetime context,
      formatted_date_range = date_range context,
      formatted_diary_entries =
        str_join newline (map format_diary_entry (sort_key datetime (recent_events context))),
      formatted_calendar_events =
        str_join newline
          (map format_calendar_event (sort_key event_datetime (upcoming_events context)))\<rparr>"

section \<open>Whitespace\<close>

text \<open>
  The characters \<open>str.strip()\<close> removes, those for which \<open>str.isspace()\<close> holds: tab to
  carriage return, the four separators \<open>0x1C\<close> to \<open>0x1F\<close>, the space, \<open>0x85\<close> and the
  no-break space \<open>0xA0\<close>.
\<close>

definition is_space :: "char \<Rightarrow> bool" where
  "is_space c =
     (let n = (of_char c :: nat)
      in (9 \<le> n \<and> n \<le> 13) \<or> (28 \<le> n \<and> n \<le> 32) \<or> n = 133 \<or> n = 160)"

definition strip :: "string \<Rightarrow> string" where
  "strip s = rev (dropWhile is_space (rev (dropWhile is_space s)))"

section \<open>The analysis request\<close>

text \<open>The value \<open>response.json()\<close> returns; an object is its items, the keys distinct.\<close>

datatype json =
    JNull
  | JBool bool
  | JNumber rat
  | JString string
  | JArray "json list"
  | JObject "(string \<times> json) list"

datatype exn =
    ConnectionError
  | Timeout
  | HTTPError nat
  | JSONDecodeError
  | TypeError
  | KeyError
  | IndexError
  | AttributeError

text \<open>
  What the POST of \<open>query_llm\<close> meets: no connection, no answer within the 30 seconds of
  \<open>timeout\<close>, or a response with a status code and a body that is JSON text or is not.
  The payload sent is not part of the model.
\<close>

datatype http_outcome =
    ConnectionFailed
  | TimedOut
  | Response nat "json option"

text \<open>
  The two clauses of the \<open>try\<close>: \<open>except requests.exceptions.RequestException\<close> raises
  "Failed to connect to LLM: ...", \<open>except Exception\<close> raises "Error processing LLM
  response: ...".
\<close>

datatype llm_error =
    FailedToConnect exn
  | ErrorProcessing exn

text \<open>
  The classes of \<open>requests.exceptions\<close>: connection errors, timeouts and HTTP errors are
  \<open>RequestException\<close>s. Whether the error \<open>response.json()\<close> raises is one depends on the
  installed version of the library (it is from 2.27 on), so it is a parameter.
\<close>

fun is_RequestException :: "bool \<Rightarrow> exn \<Rightarrow> bool" where
  "is_RequestException json_error_is_request_exception ConnectionError = True"
| "is_RequestException json_error_is_request_exception Timeout = True"
| "is_RequestException json_error_is_request_exception (HTTPError status) = True"
| "is_RequestException json_error_is_request_exception JSONDecodeError =
     json_error_is_request_exception"
| "is_RequestException json_error_is_request_exception e = False"

fun str_contains :: "string \<Rightarrow> string \<Rightarrow> bool" where
  "str_contains sub [] = (sub = [])"
| "str_contains sub (c # cs) = (take (length sub) (c # cs) = sub \<or> str_contains sub cs)"

text \<open>\<open>"choices" in result\<close>.\<close>

fun contains_choices :: "json \<Rightarrow> exn + bool" where
  "contains_choices (JObject items) = Inr (''choices'' \<in> set (map fst items))"
| "contains_choices (JArray xs) = Inr (JString ''choices'' \<in> set xs)"
| "contains_choices (JString s) = Inr (str_contains ''choices'' s)"
| "contains_choices v = Inl TypeError"

text \<open>\<open>result["choices"]\<close>.\<close>

fun subscript_choices :: "json \<Rightarrow> exn + json" where
  "subscript_choices (JObject items) =
     (case map_of items ''choices'' of None \<Rightarrow> Inl KeyError | Some v \<Rightarrow> Inr v)"
| "subscript_choices v = Inl TypeError"

text \<open>The truth value of a Python object.\<close>

fun truthy :: "json \<Rightarrow> bool" where
  "truthy JNull = False"
| "truthy (JBool b) = b"
| "truthy (JNumber n) = (n \<noteq> 0)"
| "truthy (JString s) = (s \<noteq> [])"
| "truthy (JArray xs) = (xs \<noteq> [])"
| "truthy (JObject items) = (items \<noteq> [])"

text \<open>\<open>choices[0]\<close>; the keys of an object are strings, so 0 is none of them.\<close>

fun subscript_0 :: "json \<Rightarrow> exn + json" where
  "subscript_0 (JArray []) = Inl IndexError"
| "subscript_0 (JArray (x # xs)) = Inr x"
| "subscript_0 (JString []) = Inl IndexError"
| "subscript_0 (JString (c # cs)) = Inr (JString [c])"
| "subscript_0 (JObject items) = Inl KeyError"
| "subscript_0 v = Inl TypeError"

definition no_analysis :: string where
  "no_analysis = ''No analysis available''"

text \<open>\<open>choice.get("text", "No analysis available")\<close>.\<close>

fun get_text :: "json \<Rightarrow> exn + json" where
  "get_text (JObject items) =
     Inr (case map_of items ''text'' of None \<Rightarrow> JString no_analysis | Some v \<Rightarrow> v)"
| "get_text v = Inl AttributeError"

text \<open>\<open>text.strip()\<close>.\<close>

fun strip_method :: "json \<Rightarrow> exn + string" where
  "strip_method (JString s) = Inr (strip s)"
| "strip_method v = Inl AttributeError"

text \<open>The \<open>return\<close> line of \<open>query_llm\<close>, on the parsed response.\<close>

definition extract_analysis :: "json \<Rightarrow> exn + string" where
  "extract_analysis result =
     (case contains_choices result of
        Inl e \<Rightarrow> Inl e
      | Inr False \<Rightarrow> Inr no_analysis
      | Inr True \<Rightarrow>
          (case subscript_choices result of
             Inl e \<Rightarrow> Inl e
           | Inr choices \<Rightarrow>
               if truthy choices
               then (case subscript_0 choices of
                       Inl e \<Rightarrow> Inl e
                     | Inr choice \<Rightarrow>
                         (case get_text choice of
                            Inl e \<Rightarrow> Inl e
                          | Inr text \<Rightarrow> strip_method text))
               else Inr no_analysis))"

text \<open>
  The body of the \<open>try\<close>: \<open>requests.post\<close>, \<open>raise_for_status\<close> (which raises for the
  status codes 400 to 599), \<open>response.json()\<close> and the extraction.
\<close>

fun try_body :: "http_outcome \<Rightarrow> exn + string" where
  "try_body ConnectionFailed = Inl ConnectionError"
| "try_body TimedOut = Inl Timeout"
| "try_body (Response status body) =
     (if 400 \<le> status \<and> status < 600 then Inl (HTTPError status)
      else case body of None \<Rightarrow> Inl JSONDecodeError | Some result \<Rightarrow> extract_analysis result)"

definition query_llm :: "bool \<Rightarrow> http_outcome \<Rightarrow> llm_error + string" where
  "query_llm json_error_is_request_exception outcome =
     (case try_body outcome of
        Inr text \<Rightarrow> Inr text
      | Inl e \<Rightarrow>
          if is_RequestException json_error_is_request_exception e
          then Inl (FailedToConnect e)
          else Inl (ErrorProcessing e))"

section \<open>Saving a diary entry\<close>

text \<open>
  The state \<open>save_diary_entry\<close> works on: the two dictionaries, the documents on disk by
  file name, and the dialogs shown so far. The colours \<open>highlight_dates\<close> gives the
  calendar widget are not part of the state.
\<close>

datatype dialog =
    ErrorDialog string
  | InformationDialog string string

record app_state =
  diary_entries :: entries
  calendar_events :: entries
  documents :: "string \<Rightarrow> entries option"
  dialogs :: "dialog list"

text \<open>
  What writing a document meets: it is written, or \<open>open\<close> or \<open>json.dump\<close> raises with
  the given message and leaves the given content behind.
\<close>

datatype write_outcome =
    Written
  | WriteRaised string "entries option"

definition validate_entry :: "string \<Rightarrow> bool" where
  "validate_entry entry = (strip entry \<noteq> [])"

definition show_error :: "string \<Rightarrow> app_state \<Rightarrow> app_state" where
  "show_error message st = st\<lparr>dialogs := dialogs st @ [ErrorDialog message]\<rparr>"

fun save_json :: "entries \<Rightarrow> string \<Rightarrow> write_outcome \<Rightarrow> app_state \<Rightarrow> app_state" where
  "save_json data filename Written st =
     st\<lparr>documents := (documents st)(filename := Some data)\<rparr>"
| "save_json data filename (WriteRaised e left) st =
     show_error (''Error saving '' @ filename @ '': '' @ e)
       (st\<lparr>documents := (documents st)(filename := left)\<rparr>)"

definition save_diary_entry ::
  "string \<Rightarrow> string \<Rightarrow> write_outcome \<Rightarrow> app_state \<Rightarrow> app_state" where
  "save_diary_entry datetime_str entry io st =
     (if validate_entry entry
      then (let st1 = st\<lparr>diary_entries := AList.update datetime_str entry (diary_entries st)\<rparr>;
                st2 = save_json (diary_entries st1) ''diary_entries.json'' io st1
            in st2\<lparr>dialogs := dialogs st2
                 @ [InformationDialog ''Success'' ''Diary entry saved successfully.'']\<rparr>)
      else show_error ''Diary entry cannot be empty.'' st)"

section \<open>Chronological order\<close>

text \<open>
  The instant of a valid \<open>QDateTime\<close>, in seconds from the start of Julian day 0: one
  \<open>QDateTime\<close> is before another when its instant is smaller.
\<close>

definition seconds_of :: "datetime_parts \<Rightarrow> int" where
  "seconds_of t = 86400 * julian_day t + int (3600 * hour t + 60 * minute t + second t)"

text \<open>
  Two auxiliary functions for the calendar arithmetic: the days a year has before its
  month \<open>m\<close>, and the days of the years before the year \<open>z\<close> of \<open>julianFromParts\<close>.
\<close>

definition days_before_month :: "int \<Rightarrow> bool \<Rightarrow> int" where
  "days_before_month m leap =
     (if m = 1 then 0 else if m = 2 then 31
      else (if leap then 1 else 0)
        + (if m = 3 then 59 else if m = 4 then 90 else if m = 5 then 120
           else if m = 6 then 151 else if m = 7 then 181 else if m = 8 then 212
           else if m = 9 then 243 else if m = 10 then 273 else if m = 11 then 304 else 334))"

definition year_days :: "int \<Rightarrow> int" where
  "year_days z = 365 * z + z div 4 - z div 100 + z div 400"

section \<open>Example inputs\<close>

text \<open>A context whose diary entries are not in the order of their timestamps.\<close>

definition unsorted_context :: rag_context where
  "unsorted_context =
     \<lparr>current_datetime = ''2024-06-10 09:00:00'',
      recent_events = [\<lparr>datetime = ''2024-06-09 20:00'', content = ''fine'', days_ago = 1\<rparr>,
                       \<lparr>datetime = ''2024-06-03 08:00'', content = ''ok'', days_ago = 7\<rparr>],
      upcoming_events = [],
      date_range = \<lparr>range_start = ''2024-06-03'', range_end = ''2024-06-24''\<rparr>\<rparr>"


text \<open>An application that holds one diary entry, saved to its document.\<close>

definition one_entry_state :: app_state where
  "one_entry_state =
     \<lparr>diary_entries = [(''2024-06-09 20:00'', ''fine'')], calendar_events = [],
      documents = (\<lambda>f. if f = ''diary_entries.json''
                        then Some [(''2024-06-09 20:00'', ''fine'')] else None),
      dialogs = []\<rparr>"

section \<open>Evaluating the parser\<close>

lemmas parse_defs = fromString_def parse_fields.simps is_digit_def number_def digit_val_def
  validParts_def daysInMonth_def isLeapYear_def julianFromParts_def

lemma fromString_2024_06_10:
  "fromString ''2024-06-10 09:00''
     = Some \<lparr>julian_day = 2460472, hour = 9, minute = 0, second = 0\<rparr>"
  by (simp add: parse_defs)

lemma fromString_2024_06_03:
  "fromString ''2024-06-03 08:00''
     = Some \<lparr>julian_day = 2460465, hour = 8, minute = 0, second = 0\<rparr>"
  by (simp add: parse_defs)

lemma fromString_2024_06_09:
  "fromString ''2024-06-09 20:00''
     = Some \<lparr>julian_day = 2460471, hour = 20, minute = 0, second = 0\<rparr>"
  by (simp add: parse_defs)

lemma fromString_2024_06_15:
  "fromString ''2024-06-15 20:00''
     = Some \<lparr>julian_day = 2460477, hour = 20, minute = 0, second = 0\<rparr>"
  by (simp add: parse_defs)

lemma fromString_2024_06_12:
  "fromString ''2024-06-12 10:00''
     = Some \<lparr>julian_day = 2460474, hour = 10, minute = 0, second = 0\<rparr>"
  by (simp add: parse_defs)

lemma fromString_2024_07_01:
  "fromString ''2024-07-01 10:00''
     = Some \<lparr>julian_day = 2460493, hour = 10, minute = 0, second = 0\<rparr>"
  by (simp add: parse_defs)

text \<open>A negative year is read; 21 May of the year -2006 is Julian day 988889.\<close>

lemma fromString_negative_year:
  "fromString ''-2006-05-21 10:00''
     = Some \<lparr>julian_day = 988889, hour = 10, minute = 0, second = 0\<rparr>"
  by (simp add: parse_defs)

lemma fromString_tomorrow: "fromString ''tomorrow'' = None"
  by (simp add: fromString_def parse_fields.simps)

lemma fromString_next_tuesday: "fromString ''next tuesday'' = None"
  by (simp add: fromString_def parse_fields.simps)

section \<open>The window of upcoming events\<close>

lemma set_collect_upcoming:
  "set (collect_upcoming now evs) =
     {\<lparr>event_datetime = k, event = v, days_until = daysTo now (fromString k),
        is_urgent = (daysTo now (fromString k) \<le> 3)\<rparr> | k v.
      (k, v) \<in> set evs \<and> 0 \<le> daysTo now (fromString k) \<and> daysTo now (fromString k) \<le> 14}"
  by (induction evs) (auto simp: Let_def)

text \<open>
  Claim C3, as stated, fails: an event whose key is no timestamp has no day difference
  from \<open>now\<close>, and is included all the same, as an urgent event of today.
\<close>

theorem event_without_timestamp_included:
  "fromString ''tomorrow'' = None
   \<and> upcoming_events (prepare_rag_context (fromString ''2024-06-10 09:00'')
        [] [(''tomorrow'', ''pay the rent'')])
     = [\<lparr>event_datetime = ''tomorrow'', event = ''pay the rent'', days_until = 0,
          is_urgent = True\<rparr>]"
  by (simp add: prepare_rag_context_def fromString_2024_06_10 fromString_tomorrow)

text \<open>
  Claim C3, amended. For every current datetime and every event mapping, the items of
  \<open>upcoming_events\<close> are: for each event whose key is a timestamp and whose whole-day
  difference from \<open>now\<close> (the difference of the Julian days) lies between 0 and 14
  inclusive, an item that carries that difference as \<open>days_until\<close> and has \<open>is_urgent\<close>
  set exactly when \<open>days_until \<le> 3\<close>; and for each event whose key is no timestamp, an
  item with \<open>days_until = 0\<close> and \<open>is_urgent\<close> set. There are no other items.
\<close>

theorem upcoming_events_by_key:
  "set (upcoming_events (prepare_rag_context (Some now) diary events)) =
     {\<lparr>event_datetime = k, event = v, days_until = julian_day t - julian_day now,
        is_urgent = (julian_day t - julian_day now \<le> 3)\<rparr> | k v t.
      (k, v) \<in> set events \<and> fromString k = Some t
        \<and> 0 \<le> julian_day t - julian_day now \<and> julian_day t - julian_day now \<le> 14}
     \<union> {\<lparr>event_datetime = k, event = v, days_until = 0, is_urgent = True\<rparr> | k v.
      (k, v) \<in> set events \<and> fromString k = None}"
proof -
  have d: "daysTo (Some now) (fromString k)
      = (case fromString k of None \<Rightarrow> 0 | Some t \<Rightarrow> julian_day t - julian_day now)" for k
    by (cases "fromString k") simp_all
  have "set (collect_upcoming (Some now) events) =
     {\<lparr>event_datetime = k, event = v, days_until = julian_day t - julian_day now,
        is_urgent = (julian_day t - julian_day now \<le> 3)\<rparr> | k v t.
      (k, v) \<in> set events \<and> fromString k = Some t
        \<and> 0 \<le> julian_day t - julian_day now \<and> julian_day t - julian_day now \<le> 14}
     \<union> {\<lparr>event_datetime = k, event = v, days_until = 0, is_urgent = True\<rparr> | k v.
      (k, v) \<in> set events \<and> fromString k = None}"
    (is "_ = ?A \<union> ?B")
  proof (intro set_eqI iffI)
    fix item
    assume "item \<in> set (collect_upcoming (Some now) events)"
    then obtain k v where kv: "(k, v) \<in> set events"
      and w: "0 \<le> daysTo (Some now) (fromString k)" "daysTo (Some now) (fromString k) \<le> 14"
      and i: "item = \<lparr>event_datetime = k, event = v,
          days_until = daysTo (Some now) (fromString k),
          is_urgent = (daysTo (Some now) (fromString k) \<le> 3)\<rparr>"
      unfolding set_collect_upcoming by blast
    show "item \<in> ?A \<union> ?B"
    proof (cases "fromString k")
      case None
      then have "item \<in> ?B" using kv i by simp
      then show ?thesis ..
    next
      case (Some t)
      then have "item \<in> ?A" using kv i w by auto
      then show ?thesis ..
    qed
  next
    fix item
    assume "item \<in> ?A \<union> ?B"
    then show "item \<in> set (collect_upcoming (Some now) events)"
    proof
      assume "item \<in> ?A"
      then obtain k v t where "(k, v) \<in> set events" "fromString k = Some t"
        "0 \<le> julian_day t - julian_day now" "julian_day t - julian_day now \<le> 14"
        "item = \<lparr>event_datetime = k, event = v, days_until = julian_day t - julian_day now,
           is_urgent = (julian_day t - julian_day now \<le> 3)\<rparr>"
        by blast
      then show ?thesis
        unfolding set_collect_upcoming by (intro CollectI exI [of _ k] exI [of _ v]) simp
    next
      assume "item \<in> ?B"
      then obtain k v where "(k, v) \<in> set events" "fromString k = None"
        "item = \<lparr>event_datetime = k, event = v, days_until = 0, is_urgent = True\<rparr>"
        by blast
      then show ?thesis
        unfolding set_collect_upcoming by (intro CollectI exI [of _ k] exI [of _ v]) simp
    qed
  qed
  then show ?thesis
    by (simp add: prepare_rag_context_def)
qed

text \<open>
  The scenario of the specification: at \<open>2024-06-10 09:00\<close> the event of 12 June is
  upcoming and urgent, two days ahead; the event of 1 July, 21 days ahead, is not.
\<close>

lemma upcoming_events_example:
  "upcoming_events (prepare_rag_context (fromString ''2024-06-10 09:00'') []
      [(''2024-07-01 10:00'', ''holiday''), (''2024-06-12 10:00'', ''review'')])
     = [\<lparr>event_datetime = ''2024-06-12 10:00'', event = ''review'', days_until = 2,
          is_urgent = True\<rparr>]"
  by (simp add: prepare_rag_context_def fromString_2024_06_10 fromString_2024_06_12
      fromString_2024_07_01)

section \<open>The window of recent diary entries\<close>

lemma set_collect_recent:
  "set (collect_recent now es) =
     {\<lparr>datetime = k, content = v, days_ago = \<bar>daysTo (fromString k) now\<bar>\<rparr> | k v.
      (k, v) \<in> set es \<and> -7 \<le> daysTo (fromString k) now \<and> daysTo (fromString k) now \<le> 0}"
  by (induction es) (auto simp: Let_def)

text \<open>
  Claim C1. The claim asks for the diary entries of the past week. The source tests
  \<open>-7 \<le> entry.daysTo(now) \<le> 0\<close>, and \<open>entry.daysTo(now)\<close> is positive for an entry
  before \<open>now\<close>: at \<open>now = 2024-06-10 09:00\<close> the entries of 3 June and 9 June are left
  out, and an entry dated 15 June, five days after \<open>now\<close>, is taken with
  \<open>days_ago = 5\<close>.
\<close>

theorem recent_events_leaves_out_past_week:
  "recent_events (prepare_rag_context (fromString ''2024-06-10 09:00'')
      [(''2024-06-03 08:00'', ''ok''), (''2024-06-09 20:00'', ''fine'')] []) = []
   \<and> recent_events (prepare_rag_context (fromString ''2024-06-10 09:00'')
      [(''2024-06-15 20:00'', ''later'')] [])
     = [\<lparr>datetime = ''2024-06-15 20:00'', content = ''later'', days_ago = 5\<rparr>]"
  by (simp add: prepare_rag_context_def fromString_2024_06_10 fromString_2024_06_03
      fromString_2024_06_09 fromString_2024_06_15)

section \<open>Keys that are not timestamps\<close>

text \<open>
  Claim C2, as stated, fails: a key that \<open>fromString\<close> cannot read is not left out.
  Its day difference counts as 0, which lies in both windows; it is so for a key of the
  diary and for a key of the events.
\<close>

theorem malformed_key_included:
  "fromString ''next tuesday'' = None
   \<and> recent_events (prepare_rag_context (fromString ''2024-06-10 09:00'')
        [(''next tuesday'', ''dentist'')] [])
     = [\<lparr>datetime = ''next tuesday'', content = ''dentist'', days_ago = 0\<rparr>]
   \<and> upcoming_events (prepare_rag_context (fromString ''2024-06-10 09:00'')
        [] [(''next tuesday'', ''call'')])
     = [\<lparr>event_datetime = ''next tuesday'', event = ''call'', days_until = 0,
          is_urgent = True\<rparr>]"
  by (simp add: prepare_rag_context_def fromString_2024_06_10 fromString_next_tuesday)

text \<open>
  Claim C2, amended. \<open>prepare_rag_context\<close> has no failing branch, so it returns a context
  for every input; a key that is not a timestamp is kept, not skipped, in each mapping
  on its own: the items of \<open>recent_events\<close> under such a key are its diary entries,
  each with \<open>days_ago = 0\<close>, and the items of \<open>upcoming_events\<close> under such a key are its
  events, each with \<open>days_until = 0\<close> and \<open>is_urgent\<close> set.
\<close>

theorem malformed_key_kept:
  assumes "fromString k = None"
  shows "{r \<in> set (recent_events (prepare_rag_context now diary events)). datetime r = k}
           = {\<lparr>datetime = k, content = v, days_ago = 0\<rparr> | v. (k, v) \<in> set diary}
       \<and> {u \<in> set (upcoming_events (prepare_rag_context now diary events)).
            event_datetime u = k}
           = {\<lparr>event_datetime = k, event = w, days_until = 0, is_urgent = True\<rparr> | w.
              (k, w) \<in> set events}"
proof -
  have d1: "daysTo (fromString k) now = 0" and d2: "daysTo now (fromString k) = 0"
    using assms by (cases now; simp)+
  have "{r \<in> set (collect_recent now diary). datetime r = k}
      = {\<lparr>datetime = k, content = v, days_ago = 0\<rparr> | v. (k, v) \<in> set diary}"
    unfolding set_collect_recent using d1 by auto
  moreover have "{u \<in> set (collect_upcoming now events). event_datetime u = k}
      = {\<lparr>event_datetime = k, event = w, days_until = 0, is_urgent = True\<rparr> | w.
         (k, w) \<in> set events}"
    unfolding set_collect_upcoming using d2 by auto
  ultimately show ?thesis
    by (simp add: prepare_rag_context_def)
qed

theorem malformed_key_kept_witness:
  "fromString ''next tuesday'' = None
   \<and> fromString ''someday'' = None
   \<and> {r \<in> set (recent_events (prepare_rag_context (fromString ''2024-06-10 09:00'')
          [(''next tuesday'', ''dentist'')] [(''someday'', ''call'')])).
        datetime r = ''next tuesday''}
     = {\<lparr>datetime = ''next tuesday'', content = ''dentist'', days_ago = 0\<rparr>}
   \<and> {u \<in> set (upcoming_events (prepare_rag_context (fromString ''2024-06-10 09:00'')
          [(''next tuesday'', ''dentist'')] [(''someday'', ''call'')])).
        event_datetime u = ''someday''}
     = {\<lparr>event_datetime = ''someday'', event = ''call'', days_until = 0, is_urgent = True\<rparr>}"
proof -
  have h: "fromString ''next tuesday'' = None" by (rule fromString_next_tuesday)
  have g: "fromString ''someday'' = None" by (simp add: fromString_def parse_fields.simps)
  show ?thesis
    using h g
      malformed_key_kept [OF h, of "fromString ''2024-06-10 09:00''"
        "[(''next tuesday'', ''dentist'')]" "[(''someday'', ''call'')]"]
      malformed_key_kept [OF g, of "fromString ''2024-06-10 09:00''"
        "[(''next tuesday'', ''dentist'')]" "[(''someday'', ''call'')]"]
    by simp
qed

section \<open>The order of the rendered lines\<close>





text \<open>
  A context that is not in the order of its timestamps, which \<open>prepare_rag_context\<close>
  never builds, would be rendered in that order and not in its own.
\<close>

lemma formatter_sorts_unsorted_context:
  "formatted_diary_entries (format_rag_context unsorted_context)
     = ''[2024-06-03 08:00] ok'' @ newline @ ''[2024-06-09 20:00] fine''
   \<and> str_join newline (map format_diary_entry (recent_events unsorted_context))
     = ''[2024-06-09 20:00] fine'' @ newline @ ''[2024-06-03 08:00] ok''"
  by (simp add: unsorted_context_def format_rag_context_def format_diary_entry_def newline_def)

section \<open>Truncation of the diary content\<close>

lemma format_diary_entry_alt:
  "format_diary_entry =
     (\<lambda>entry. ''['' @ datetime entry @ ''] ''
               @ (if length (content entry) \<le> 200 then content entry
                  else take 200 (content entry) @ ''...''))"
  by (rule ext) (simp add: format_diary_entry_def)

text \<open>
  Claim C6. Every line of the rendered diary entries is the timestamp in brackets, a
  space, and the content: the content itself when it has at most 200 characters, its
  first 200 characters followed by \<open>...\<close> when it has more.
\<close>

theorem diary_content_truncation:
  "formatted_diary_entries (format_rag_context context) =
     str_join newline
       (map (\<lambda>entry. ''['' @ datetime entry @ ''] ''
               @ (if length (content entry) \<le> 200 then content entry
                  else take 200 (content entry) @ ''...''))
          (sort_key datetime (recent_events context)))"
  unfolding format_diary_entry_alt [symmetric] by (simp add: format_rag_context_def)

section \<open>The text of the first completion\<close>

text \<open>
  What \<open>strip\<close> does: the text is a run of whitespace, the stripped text, and a run
  of whitespace, and the stripped text neither starts nor ends with whitespace.
\<close>

lemma strip_decomposition:
  "s = takeWhile is_space s @ strip s
        @ rev (takeWhile is_space (rev (dropWhile is_space s)))"
proof -
  define r where "r = dropWhile is_space s"
  have "rev (dropWhile is_space (rev r)) @ rev (takeWhile is_space (rev r))
      = rev (takeWhile is_space (rev r) @ dropWhile is_space (rev r))"
    by (simp only: rev_append)
  also have "\<dots> = rev (rev r)"
    by (simp only: takeWhile_dropWhile_id)
  finally have "r = rev (dropWhile is_space (rev r)) @ rev (takeWhile is_space (rev r))"
    by simp
  moreover have "s = takeWhile is_space s @ r"
    unfolding r_def by simp
  ultimately show ?thesis
    unfolding strip_def r_def by simp
qed

lemma strip_removed_is_space:
  "list_all is_space (takeWhile is_space s)"
  "list_all is_space (rev (takeWhile is_space (rev (dropWhile is_space s))))"
  by (auto simp: list_all_iff dest: set_takeWhileD)

lemma strip_ends:
  assumes "strip s \<noteq> []"
  shows "\<not> is_space (hd (strip s)) \<and> \<not> is_space (last (strip s))"
proof -
  define r where "r = dropWhile is_space s"
  define t where "t = dropWhile is_space (rev r)"
  have t: "t \<noteq> []" using assms unfolding strip_def r_def t_def by simp
  then have "\<not> is_space (hd t)"
    unfolding t_def by (rule hd_dropWhile)
  then have l: "\<not> is_space (last (strip s))"
    unfolding strip_def r_def [symmetric] t_def [symmetric] using t by (simp add: last_rev)
  have "r = rev t @ rev (takeWhile is_space (rev r))"
  proof -
    have "rev r = takeWhile is_space (rev r) @ t" unfolding t_def by simp
    then have "rev (rev r) = rev (takeWhile is_space (rev r) @ t)" by (rule arg_cong)
    then show ?thesis by simp
  qed
  moreover have "rev t \<noteq> []" using t by simp
  ultimately have "hd r = hd (rev t)"
    by (metis hd_append2)
  moreover have "r \<noteq> []" using t unfolding t_def by auto
  then have "\<not> is_space (hd r)" unfolding r_def by (rule hd_dropWhile)
  ultimately have "\<not> is_space (hd (strip s))"
    unfolding strip_def r_def [symmetric] t_def [symmetric] by simp
  with l show ?thesis by simp
qed

lemma strip_hello: "strip ''  hello  '' = ''hello''"
  by (simp add: strip_def is_space_def)

lemma strip_no_analysis: "strip no_analysis = no_analysis"
  by (simp add: strip_def is_space_def no_analysis_def)

lemma contains_choices_object:
  "contains_choices (JObject items) = Inr (map_of items ''choices'' \<noteq> None)"
  by (simp add: map_of_eq_None_iff)

lemma extract_analysis_object:
  "extract_analysis (JObject items) =
     (case map_of items ''choices'' of
        None \<Rightarrow> Inr no_analysis
      | Some choices \<Rightarrow>
          if truthy choices
          then (case subscript_0 choices of
                  Inl e \<Rightarrow> Inl e
                | Inr choice \<Rightarrow>
                    (case get_text choice of Inl e \<Rightarrow> Inl e | Inr text \<Rightarrow> strip_method text))
          else Inr no_analysis)"
  unfolding extract_analysis_def contains_choices_object
  by (simp split: option.splits)

lemma query_llm_response:
  "\<not> (400 \<le> status \<and> status < 600) \<Longrightarrow>
   query_llm v (Response status (Some result)) =
     (case extract_analysis result of
        Inl e \<Rightarrow> Inl (if is_RequestException v e then FailedToConnect e else ErrorProcessing e)
      | Inr text \<Rightarrow> Inr text)"
  by (auto simp: query_llm_def split: sum.splits)

lemma extract_analysis_exn:
  "extract_analysis result = Inl e \<Longrightarrow> \<not> is_RequestException v e"
  unfolding extract_analysis_def
  by (auto split: sum.splits bool.splits option.splits if_splits
      elim!: contains_choices.elims subscript_choices.elims subscript_0.elims get_text.elims
        strip_method.elims)

text \<open>
  Claim C7. For a response that is not an HTTP error and whose body is an object: when
  \<open>choices\<close> is a list whose first element is an object with a string \<open>text\<close>, the
  request returns that text stripped of leading and trailing whitespace; when \<open>choices\<close>
  is absent or the empty list, it returns "No analysis available" as its result.
\<close>

theorem first_completion_text:
  assumes "\<not> (400 \<le> status \<and> status < 600)"
  shows "(map_of items ''choices'' = Some (JArray (JObject choice # others))
            \<and> map_of choice ''text'' = Some (JString text)
          \<longrightarrow> query_llm v (Response status (Some (JObject items))) = Inr (strip text))
       \<and> (map_of items ''choices'' = None \<or> map_of items ''choices'' = Some (JArray [])
          \<longrightarrow> query_llm v (Response status (Some (JObject items))) = Inr no_analysis)"
  using assms by (auto simp: query_llm_response extract_analysis_object)

theorem first_completion_text_witness:
  "\<not> (400 \<le> (200::nat) \<and> (200::nat) < 600)
   \<and> query_llm True (Response 200 (Some (JObject
        [(''choices'', JArray [JObject [(''text'', JString ''  hello  '')]])])))
     = Inr ''hello''
   \<and> query_llm True (Response 200 (Some (JObject []))) = Inr ''No analysis available''
   \<and> query_llm True (Response 200 (Some (JObject [(''choices'', JArray [])])))
     = Inr ''No analysis available''"
proof -
  have h: "\<not> (400 \<le> (200::nat) \<and> (200::nat) < 600)" by simp
  show ?thesis
    using h strip_hello
      first_completion_text [OF h,
        of "[(''choices'', JArray [JObject [(''text'', JString ''  hello  '')]])]"
          "[(''text'', JString ''  hello  '')]" "[]" "''  hello  ''" True]
      first_completion_text [OF h, of "[]" "[]" "[]" "[]" True]
      first_completion_text [OF h, of "[(''choices'', JArray [])]" "[]" "[]" "[]" True]
    by (simp add: no_analysis_def)
qed

text \<open>
  Claim C10. When the first choice is an object without a \<open>text\<close> field, the request
  returns "No analysis available" (the default of \<open>get\<close>, which \<open>strip\<close> leaves as it
  is) as its result, and raises nothing.
\<close>

theorem missing_text_field:
  assumes "\<not> (400 \<le> status \<and> status < 600)"
    and "map_of items ''choices'' = Some (JArray (JObject choice # others))"
    and "map_of choice ''text'' = None"
  shows "query_llm v (Response status (Some (JObject items))) = Inr no_analysis"
  using assms by (simp add: query_llm_response extract_analysis_object strip_no_analysis)

theorem missing_text_field_witness:
  "\<not> (400 \<le> (200::nat) \<and> (200::nat) < 600)
   \<and> map_of [(''choices'', JArray [JObject [(''index'', JNumber 0)]])] ''choices''
       = Some (JArray [JObject [(''index'', JNumber 0)]])
   \<and> map_of [(''index'', JNumber 0)] ''text'' = None
   \<and> query_llm True (Response 200 (Some (JObject
        [(''choices'', JArray [JObject [(''index'', JNumber 0)]])])))
     = Inr ''No analysis available''"
proof -
  have h: "\<not> (400 \<le> (200::nat) \<and> (200::nat) < 600)" by simp
  have c: "map_of [(''choices'', JArray [JObject [(''index'', JNumber 0)]])] ''choices''
       = Some (JArray [JObject [(''index'', JNumber 0)]])" by simp
  have t: "map_of [(''index'', JNumber 0)] ''text'' = None" by simp
  show ?thesis
    using h c t missing_text_field [OF h c t, of True]
    by (simp add: no_analysis_def)
qed

section \<open>The failures of the analysis request\<close>

text \<open>
  A body that is JSON and from which the \<open>return\<close> line cannot take a text is a failure
  to process the response: here the \<open>text\<close> is \<open>null\<close>, which has no \<open>strip\<close>.
\<close>

lemma failure_with_parsed_body:
  "query_llm True (Response 200 (Some (JObject
      [(''choices'', JArray [JObject [(''text'', JNull)]])])))
     = Inl (ErrorProcessing AttributeError)
   \<and> query_llm False (Response 200 (Some (JObject
      [(''choices'', JArray [JObject [(''text'', JNull)]])])))
     = Inl (ErrorProcessing AttributeError)"
  by (simp add: query_llm_def extract_analysis_def)

text \<open>
  All the cases of the request: which fail, and by which of the two clauses each failure
  is reported.
\<close>

lemma analysis_failure_classes:
  "query_llm v ConnectionFailed = Inl (FailedToConnect ConnectionError)
   \<and> query_llm v TimedOut = Inl (FailedToConnect Timeout)
   \<and> (400 \<le> status \<and> status < 600
        \<longrightarrow> query_llm v (Response status body) = Inl (FailedToConnect (HTTPError status)))
   \<and> (\<not> (400 \<le> status \<and> status < 600)
        \<longrightarrow> query_llm v (Response status None)
             = Inl (if v then FailedToConnect JSONDecodeError
                    else ErrorProcessing JSONDecodeError))
   \<and> (\<not> (400 \<le> status \<and> status < 600) \<and> extract_analysis result = Inl e
        \<longrightarrow> query_llm v (Response status (Some result)) = Inl (ErrorProcessing e))
   \<and> (\<not> (400 \<le> status \<and> status < 600) \<and> extract_analysis result = Inr text
        \<longrightarrow> query_llm v (Response status (Some result)) = Inr text)"
  using extract_analysis_exn [of result e v]
  by (auto simp: query_llm_def)

lemma analysis_failure_classes_examples:
  "(400 \<le> (500::nat) \<and> (500::nat) < 600)
   \<and> \<not> (400 \<le> (200::nat) \<and> (200::nat) < 600)
   \<and> extract_analysis (JNumber 1) = Inl TypeError
   \<and> extract_analysis (JObject []) = Inr ''No analysis available''
   \<and> query_llm True ConnectionFailed = Inl (FailedToConnect ConnectionError)
   \<and> query_llm True TimedOut = Inl (FailedToConnect Timeout)
   \<and> query_llm True (Response 500 None) = Inl (FailedToConnect (HTTPError 500))
   \<and> query_llm True (Response 200 None) = Inl (FailedToConnect JSONDecodeError)
   \<and> query_llm False (Response 200 None) = Inl (ErrorProcessing JSONDecodeError)
   \<and> query_llm True (Response 200 (Some (JNumber 1))) = Inl (ErrorProcessing TypeError)
   \<and> query_llm True (Response 200 (Some (JObject []))) = Inr ''No analysis available''"
proof -
  have e: "extract_analysis (JNumber 1) = Inl TypeError"
    by (simp add: extract_analysis_def)
  have t: "extract_analysis (JObject []) = Inr ''No analysis available''"
    by (simp add: extract_analysis_def no_analysis_def)
  show ?thesis
    using e t
      analysis_failure_classes [of True 500 None "JNumber 1" TypeError "''''"]
      analysis_failure_classes [of True 200 None "JNumber 1" TypeError "''''"]
      analysis_failure_classes [of False 200 None "JObject []" TypeError
        "''No analysis available''"]
      analysis_failure_classes [of True 200 None "JObject []" TypeError
        "''No analysis available''"]
    by simp
qed

text \<open>
  Claim C9. The claim has a body that cannot be read reported as a failure to interpret
  the response, apart from the failures to reach the model, and the second clause of the
  source, "Error processing LLM response", is written for it. With the error classes of
  \<open>requests\<close> 2.27 and later the error of \<open>response.json()\<close> is a \<open>RequestException\<close>,
  and the first clause takes it: a response with status 200 whose body is not JSON is
  reported as "Failed to connect to LLM", as a lost connection is, and not as the body
  with the \<open>null\<close> text is.
\<close>

theorem body_not_json_reported_as_connection_failure:
  "query_llm True (Response 200 None) = Inl (FailedToConnect JSONDecodeError)
   \<and> query_llm True ConnectionFailed = Inl (FailedToConnect ConnectionError)
   \<and> query_llm True (Response 200 (Some (JObject
        [(''choices'', JArray [JObject [(''text'', JNull)]])])))
     = Inl (ErrorProcessing AttributeError)"
  by (simp add: query_llm_def extract_analysis_def)

section \<open>Saving an empty diary entry\<close>

lemma strip_all_space:
  assumes "list_all is_space s"
  shows "strip s = []"
proof -
  have d: "dropWhile is_space s = []"
    using assms by (induction s) simp_all
  show ?thesis
    unfolding strip_def d by simp
qed

text \<open>
  Claim C8. When the content is empty or has only whitespace, \<open>save_diary_entry\<close> shows
  the error dialog "Diary entry cannot be empty." and changes nothing else: the diary
  dictionary and the documents on disk are what they were.
\<close>

theorem empty_entry_not_saved:
  assumes "list_all is_space entry"
  shows "diary_entries (save_diary_entry datetime_str entry io st) = diary_entries st
       \<and> documents (save_diary_entry datetime_str entry io st) = documents st
       \<and> dialogs (save_diary_entry datetime_str entry io st)
           = dialogs st @ [ErrorDialog ''Diary entry cannot be empty.'']"
  using strip_all_space [OF assms]
  by (simp add: save_diary_entry_def validate_entry_def show_error_def)

theorem empty_entry_not_saved_witness:
  "list_all is_space [CHR '' '', CHR 0x09, CHR 0x0A]
   \<and> diary_entries (save_diary_entry ''2024-06-10 09:00'' [CHR '' '', CHR 0x09, CHR 0x0A]
        Written one_entry_state) = [(''2024-06-09 20:00'', ''fine'')]
   \<and> documents (save_diary_entry ''2024-06-10 09:00'' [CHR '' '', CHR 0x09, CHR 0x0A]
        Written one_entry_state) ''diary_entries.json''
       = Some [(''2024-06-09 20:00'', ''fine'')]
   \<and> dialogs (save_diary_entry ''2024-06-10 09:00'' [CHR '' '', CHR 0x09, CHR 0x0A]
        Written one_entry_state) = [ErrorDialog ''Diary entry cannot be empty.'']"
proof -
  have h: "list_all is_space [CHR '' '', CHR 0x09, CHR 0x0A]"
    by (simp add: is_space_def)
  show ?thesis
    using h empty_entry_not_saved [OF h, of "''2024-06-10 09:00''" Written one_entry_state]
    by (simp add: one_entry_state_def)
qed

text \<open>A content that is not empty is stored under its timestamp and written.\<close>

lemma saved_entry_example:
  "diary_entries (save_diary_entry ''2024-06-10 09:00'' ''note'' Written one_entry_state)
     = [(''2024-06-09 20:00'', ''fine''), (''2024-06-10 09:00'', ''note'')]"
  by (simp add: save_diary_entry_def validate_entry_def strip_def is_space_def
      one_entry_state_def Let_def)

section \<open>The order of digit strings\<close>

lemma digit_val_bound: "is_digit c \<Longrightarrow> digit_val c \<le> 9"
  by (auto simp: is_digit_def digit_val_def less_eq_char_def)

lemma digit_less_iff:
  "is_digit c \<Longrightarrow> is_digit d \<Longrightarrow> (c < d) = (digit_val c < digit_val d)"
  by (auto simp: is_digit_def digit_val_def less_eq_char_def less_char_def)

lemma digit_eq_iff:
  "is_digit c \<Longrightarrow> is_digit d \<Longrightarrow> (c = d) = (digit_val c = digit_val d)"
proof -
  assume "is_digit c" "is_digit d"
  then have "48 \<le> (of_char c :: nat)" "48 \<le> (of_char d :: nat)"
    by (simp_all add: is_digit_def less_eq_char_def)
  then have "(digit_val c = digit_val d) = ((of_char c :: nat) = of_char d)"
    unfolding digit_val_def by arith
  then show ?thesis by simp
qed

lemma append_less_iff:
  fixes xs ys :: "'a::order list"
  assumes "length xs = length ys"
  shows "(xs @ us < ys @ vs) = (xs < ys \<or> xs = ys \<and> us < vs)"
  using assms by (induction xs ys rule: list_induct2) auto

lemma number_snoc: "number (ds @ [c]) = 10 * number ds + digit_val c"
  by (simp add: number_def)

lemma digits_compare:
  assumes "length xs = length ys" "list_all is_digit xs" "list_all is_digit ys"
  shows "(xs < ys) = (number xs < number ys) \<and> (xs = ys) = (number xs = number ys)"
  using assms
proof (induction xs arbitrary: ys rule: rev_induct)
  case Nil
  then show ?case by simp
next
  case (snoc c xs)
  then obtain d zs where ys: "ys = zs @ [d]"
    by (cases ys rule: rev_cases) auto
  with snoc.prems have len: "length xs = length zs"
    and dig: "list_all is_digit xs" "list_all is_digit zs" "is_digit c" "is_digit d"
    by simp_all
  note ih = snoc.IH [OF len dig(1,2)]
  have b: "digit_val c \<le> 9" "digit_val d \<le> 9"
    using dig(3,4) by (simp_all add: digit_val_bound)
  have l: "(xs @ [c] < zs @ [d]) = (xs < zs \<or> xs = zs \<and> c < d)"
    using append_less_iff [OF len, of "[c]" "[d]"] by simp
  have "(xs @ [c] < ys) = (number (xs @ [c]) < number ys)"
    unfolding ys l number_snoc using ih b digit_less_iff [OF dig(3,4)]
    by (cases "number xs < number zs"; cases "number xs = number zs") auto
  moreover have "(xs @ [c] = ys) = (number (xs @ [c]) = number ys)"
    unfolding ys number_snoc using ih b digit_eq_iff [OF dig(3,4)]
    by (cases "number xs < number zs"; cases "number xs = number zs") auto
  ultimately show ?case by simp
qed

lemma stamp_less_iff:
  fixes Y M D H N :: string
  assumes "length Y = length Y'" "length M = length M'" "length D = length D'"
    "length H = length H'"
  shows "(Y @ s1 # M @ s2 # D @ s3 # H @ s4 # N < Y' @ s1 # M' @ s2 # D' @ s3 # H' @ s4 # N')
     = (Y < Y' \<or> Y = Y' \<and> (M < M' \<or> M = M' \<and> (D < D' \<or> D = D' \<and>
          (H < H' \<or> H = H' \<and> N < N'))))"
  by (simp add: append_less_iff assms)

section \<open>Julian day numbers grow with the date\<close>

lemma div_succ:
  fixes z k :: int
  assumes "0 < k"
  shows "(z + 1) div k = z div k + (if (z + 1) mod k = 0 then 1 else 0)"
proof (cases "(z + 1) mod k = 0")
  case True
  have "z + 1 = k * ((z + 1) div k)"
    using True by (metis add.right_neutral mult_div_mod_eq)
  then have "z = k * ((z + 1) div k - 1) + (k - 1)"
    by (simp add: algebra_simps)
  then have "z div k = (z + 1) div k - 1"
    using assms by (intro int_div_pos_eq [where r = "k - 1"]) auto
  with True show ?thesis by simp
next
  case False
  define r where "r = (z + 1) mod k"
  have "0 \<le> r" "r < k"
    unfolding r_def using assms by (rule pos_mod_sign, rule pos_mod_bound)
  with False have r: "0 < r" "r < k"
    unfolding r_def by simp_all
  have "z + 1 = k * ((z + 1) div k) + r"
    unfolding r_def by simp
  then have "z = k * ((z + 1) div k) + (r - 1)"
    by simp
  then have "z div k = (z + 1) div k"
    using r by (intro int_div_pos_eq [where r = "r - 1"]) auto
  with False show ?thesis by simp
qed

lemma mod_4800:
  fixes y :: int
  shows "(y + 4800) mod 4 = y mod 4" "(y + 4800) mod 100 = y mod 100"
    "(y + 4800) mod 400 = y mod 400"
proof -
  have "(y + 4 * 1200) mod 4 = y mod 4" by (rule mod_mult_self2)
  then show "(y + 4800) mod 4 = y mod 4" by simp
  have "(y + 100 * 48) mod 100 = y mod 100" by (rule mod_mult_self2)
  then show "(y + 4800) mod 100 = y mod 100" by simp
  have "(y + 400 * 12) mod 400 = y mod 400" by (rule mod_mult_self2)
  then show "(y + 4800) mod 400 = y mod 400" by simp
qed

lemma year_days_step:
  fixes y :: int
  assumes "0 < y"
  shows "year_days (y + 4800) = year_days (y + 4799) + 365 + (if isLeapYear y then 1 else 0)"
proof -
  define p4 where "p4 = (y mod 4 = 0)"
  define p100 where "p100 = (y mod 100 = 0)"
  define p400 where "p400 = (y mod 400 = 0)"
  define q4 where "q4 = (y + 4799) div 4"
  define q100 where "q100 = (y + 4799) div 100"
  define q400 where "q400 = (y + 4799) div 400"
  have e: "y + 4799 + 1 = y + 4800" by simp
  have a: "(y + 4800) div 4 = q4 + (if p4 then 1 else 0)"
    using div_succ [of 4 "y + 4799"] unfolding e mod_4800 p4_def q4_def by simp
  have b: "(y + 4800) div 100 = q100 + (if p100 then 1 else 0)"
    using div_succ [of 100 "y + 4799"] unfolding e mod_4800 p100_def q100_def by simp
  have c: "(y + 4800) div 400 = q400 + (if p400 then 1 else 0)"
    using div_succ [of 400 "y + 4799"] unfolding e mod_4800 p400_def q400_def by simp
  have "(4::int) dvd 100" "(100::int) dvd 400" by simp_all
  then have i1: "p100 \<Longrightarrow> p4" and i2: "p400 \<Longrightarrow> p100"
    unfolding p4_def p100_def p400_def by (meson dvd_trans mod_eq_0_iff_dvd)+
  have l: "isLeapYear y = (p4 \<and> (\<not> p100 \<or> p400))"
    using assms by (simp add: isLeapYear_def p4_def p100_def p400_def)
  have "year_days (y + 4800) = 365 * (y + 4800) + (q4 + (if p4 then 1 else 0))
      - (q100 + (if p100 then 1 else 0)) + (q400 + (if p400 then 1 else 0))"
    unfolding year_days_def a b c ..
  moreover have "year_days (y + 4799) = 365 * (y + 4799) + q4 - q100 + q400"
    unfolding year_days_def q4_def q100_def q400_def ..
  ultimately show ?thesis
    unfolding l using i1 i2 by (cases p4; cases p100; cases p400) simp_all
qed

lemma month_cases:
  fixes m :: int
  assumes "1 \<le> m" "m \<le> 12"
  obtains "m = 1" | "m = 2" | "m = 3" | "m = 4" | "m = 5" | "m = 6" | "m = 7" | "m = 8"
    | "m = 9" | "m = 10" | "m = 11" | "m = 12"
proof -
  have "m = 1 \<or> m = 2 \<or> m = 3 \<or> m = 4 \<or> m = 5 \<or> m = 6 \<or> m = 7 \<or> m = 8
      \<or> m = 9 \<or> m = 10 \<or> m = 11 \<or> m = 12"
    using assms by arith
  then show ?thesis using that by blast
qed

lemma julian_early:
  assumes "0 < y" "m < 3"
  shows "julianFromParts y m d
         = d + (153 * (m + 9) + 2) div 5 - 32045 + year_days (y + 4799)"
  using assms by (simp add: julianFromParts_def year_days_def Let_def add.commute)

lemma julian_late:
  assumes "0 < y" "3 \<le> m"
  shows "julianFromParts y m d
         = d + (153 * (m - 3) + 2) div 5 - 32045 + year_days (y + 4800)"
  using assms by (simp add: julianFromParts_def year_days_def Let_def add.commute)

lemma january_first:
  assumes "0 < y"
  shows "julianFromParts y 1 1 = year_days (y + 4799) - 31738"
  using assms by (simp add: julian_early)

lemma january_step:
  assumes "0 < y"
  shows "julianFromParts (y + 1) 1 1
         = julianFromParts y 1 1 + 365 + (if isLeapYear y then 1 else 0)"
proof -
  have p: "0 < y + 1" using assms by simp
  have e: "y + 1 + 4799 = y + 4800" by simp
  show ?thesis
    unfolding january_first [OF p] january_first [OF assms] e year_days_step [OF assms]
    by simp
qed

lemma julian_by_table:
  assumes "0 < y" "1 \<le> m" "m \<le> 12"
  shows "julianFromParts y m d
         = julianFromParts y 1 1 + days_before_month m (isLeapYear y) + d - 1"
  using assms(2,3)
proof (cases rule: month_cases)
  case 1
  then show ?thesis using assms(1) by (simp add: julian_early days_before_month_def)
next
  case 2
  then show ?thesis using assms(1) by (simp add: julian_early days_before_month_def)
qed (simp_all add: julian_late [OF assms(1)] january_first [OF assms(1)]
      year_days_step [OF assms(1)] days_before_month_def)

lemma january_mono:
  assumes "0 < y" "y \<le> y'"
  shows "julianFromParts y 1 1 \<le> julianFromParts y' 1 1"
  using assms(2,1)
proof (induction y' rule: int_ge_induct)
  case base
  show ?case by simp
next
  case (step i)
  then have "0 < i" by simp
  from january_step [OF this] step show ?case
    by (simp split: if_splits)
qed

lemma valid_month: "validParts y m d \<Longrightarrow> 1 \<le> m \<and> m \<le> 12"
  unfolding validParts_def daysInMonth_def by (auto split: if_splits)

lemma day_of_year_bound:
  assumes "validParts y m d"
  shows "days_before_month m (isLeapYear y) + d \<le> 365 + (if isLeapYear y then 1 else 0)"
proof -
  have "1 \<le> m" "m \<le> 12" using valid_month [OF assms] by simp_all
  then show ?thesis
    using assms
    by (cases rule: month_cases)
      (simp_all add: validParts_def daysInMonth_def days_before_month_def split: if_splits)
qed

lemma next_month_start:
  assumes "validParts y m d" "m < 12"
  shows "days_before_month m (isLeapYear y) + d \<le> days_before_month (m + 1) (isLeapYear y)"
proof -
  have "1 \<le> m" "m \<le> 12" using valid_month [OF assms(1)] by simp_all
  then show ?thesis
    using assms
    by (cases rule: month_cases)
      (simp_all add: validParts_def daysInMonth_def days_before_month_def split: if_splits)
qed

lemma days_before_month_mono:
  assumes "1 \<le> m" "m \<le> m'" "m' \<le> 12"
  shows "days_before_month m leap \<le> days_before_month m' leap"
proof -
  have "1 \<le> m" "m \<le> 12" using assms by simp_all
  then show ?thesis
    using assms(2)
    by (cases rule: month_cases) (auto simp: days_before_month_def)
qed

lemma julian_strict_mono:
  assumes v: "validParts y m d" and v': "validParts y' m' d'"
    and p: "0 < y" "0 < y'"
    and lt: "y < y' \<or> y = y' \<and> (m < m' \<or> m = m' \<and> d < d')"
  shows "julianFromParts y m d < julianFromParts y' m' d'"
proof -
  have r: "1 \<le> m" "m \<le> 12" using valid_month [OF v] by simp_all
  have r': "1 \<le> m'" "m' \<le> 12" using valid_month [OF v'] by simp_all
  have t: "julianFromParts y m d
      = julianFromParts y 1 1 + days_before_month m (isLeapYear y) + d - 1"
    by (rule julian_by_table [OF p(1) r])
  have t': "julianFromParts y' m' d'
      = julianFromParts y' 1 1 + days_before_month m' (isLeapYear y') + d' - 1"
    by (rule julian_by_table [OF p(2) r'])
  have d': "0 < d'" using v' by (simp add: validParts_def)
  have nonneg: "0 \<le> days_before_month m' (isLeapYear y')"
    by (simp add: days_before_month_def)
  consider "y < y'" | "y = y'" "m < m'" | "y = y'" "m = m'" "d < d'"
    using lt by blast
  then show ?thesis
  proof cases
    case 1
    then have "y + 1 \<le> y'" by simp
    then have "julianFromParts (y + 1) 1 1 \<le> julianFromParts y' 1 1"
      using p(1) by (intro january_mono) simp_all
    with january_step [OF p(1)] day_of_year_bound [OF v] d' nonneg show ?thesis
      unfolding t t' by (simp split: if_splits)
  next
    case 2
    have s: "m < 12" "1 \<le> m + 1" "m + 1 \<le> m'" using 2(2) r r' by simp_all
    have a: "days_before_month m (isLeapYear y) + d
        \<le> days_before_month (m + 1) (isLeapYear y)"
      by (rule next_month_start [OF v s(1)])
    have b: "days_before_month (m + 1) (isLeapYear y) \<le> days_before_month m' (isLeapYear y)"
      by (rule days_before_month_mono [OF s(2,3) r'(2)])
    show ?thesis
      unfolding t t' using a b d' 2(1) by simp
  next
    case 3
    then show ?thesis unfolding t t' by simp
  qed
qed

section \<open>Timestamps in the order of their text\<close>

lemma parse_fields_SomeE:
  assumes "parse_fields negative a = Some x"
  obtains Y M D H N where
    "a = Y @ CHR ''-'' # M @ CHR ''-'' # D @ CHR '' '' # H @ CHR '':'' # N"
    "length Y = 4" "length M = 2" "length D = 2" "length H = 2" "length N = 2"
    "list_all is_digit Y" "list_all is_digit M" "list_all is_digit D"
    "list_all is_digit H" "list_all is_digit N"
    "validParts (if negative then - int (number Y) else int (number Y))
       (int (number M)) (int (number D))"
    "number H < 24" "number N < 60"
    "x = \<lparr>julian_day = julianFromParts
            (if negative then - int (number Y) else int (number Y))
            (int (number M)) (int (number D)),
          hour = number H, minute = number N, second = 0\<rparr>"
proof (cases "(negative, a)" rule: parse_fields.cases)
  case (1 neg y1 y2 y3 y4 s1 m1 m2 s2 d1 d2 s3 h1 h2 s4 n1 n2)
  with assms have c: "list_all is_digit [y1, y2, y3, y4, m1, m2, d1, d2, h1, h2, n1, n2]"
    "s1 = CHR ''-''" "s2 = CHR ''-''" "s3 = CHR '' ''" "s4 = CHR '':''"
    "validParts (if negative then - int (number [y1, y2, y3, y4])
         else int (number [y1, y2, y3, y4]))
       (int (number [m1, m2])) (int (number [d1, d2]))"
    "number [h1, h2] < 24" "number [n1, n2] < 60"
    "x = \<lparr>julian_day = julianFromParts
            (if negative then - int (number [y1, y2, y3, y4])
             else int (number [y1, y2, y3, y4]))
            (int (number [m1, m2])) (int (number [d1, d2])),
          hour = number [h1, h2], minute = number [n1, n2], second = 0\<rparr>"
    by (auto simp: parse_fields.simps Let_def split: if_splits)
  show thesis
    by (rule that [of "[y1, y2, y3, y4]" "[m1, m2]" "[d1, d2]" "[h1, h2]" "[n1, n2]"])
      (use 1 c in simp_all)
qed (use assms in \<open>simp_all add: parse_fields.simps\<close>)

lemma parse_fields_length:
  assumes "parse_fields negative a = Some x"
  shows "length a = 16"
  using assms by (rule parse_fields_SomeE) simp

text \<open>
  On a key of 16 characters \<open>fromString\<close> is the reading of the fields without a
  sign, and only keys of 16 characters are read so.
\<close>

lemma fromString_16:
  assumes "length a = 16"
  shows "fromString a = parse_fields False a"
proof -
  from assms obtain c rest where a: "a = c # rest" and l: "length rest = 15"
    by (cases a) simp_all
  show ?thesis
  proof (cases "c = CHR ''-''")
    case True
    have "parse_fields True rest = None"
    proof (cases "parse_fields True rest")
      case (Some x)
      then have "length rest = 16" by (rule parse_fields_length)
      with l show ?thesis by simp
    qed simp
    moreover have "parse_fields False a = None"
      using l unfolding a True
      by (cases "(False, CHR ''-'' # rest)" rule: parse_fields.cases)
        (simp_all add: parse_fields.simps is_digit_def)
    ultimately show ?thesis
      using True a by (simp add: fromString_def)
  next
    case False
    then show ?thesis using a by (simp add: fromString_def)
  qed
qed


lemma fromString_SomeE:
  assumes "fromString a = Some x" "length a = 16"
  obtains Y M D H N where
    "a = Y @ CHR ''-'' # M @ CHR ''-'' # D @ CHR '' '' # H @ CHR '':'' # N"
    "length Y = 4" "length M = 2" "length D = 2" "length H = 2" "length N = 2"
    "list_all is_digit Y" "list_all is_digit M" "list_all is_digit D"
    "list_all is_digit H" "list_all is_digit N"
    "validParts (int (number Y)) (int (number M)) (int (number D))"
    "number H < 24" "number N < 60"
    "x = \<lparr>julian_day = julianFromParts (int (number Y)) (int (number M)) (int (number D)),
          hour = number H, minute = number N, second = 0\<rparr>"
proof -
  from assms(2) obtain c rest where a: "a = c # rest" and l: "length rest = 15"
    by (cases a) simp_all
  have "c \<noteq> CHR ''-''"
  proof
    assume "c = CHR ''-''"
    with assms(1) a have "parse_fields True rest = Some x"
      by (simp add: fromString_def)
    then have "length rest = 16" by (rule parse_fields_length)
    with l show False by simp
  qed
  with assms(1) a have "parse_fields False a = Some x"
    by (simp add: fromString_def)
  then show thesis
    by (rule parse_fields_SomeE) (rule that, simp_all)
qed

lemma time_of_day_order:
  fixes h n h' n' :: nat
  assumes "n < 60" "n' < 60"
  shows "(h < h' \<or> h = h' \<and> n \<le> n') = (3600 * h + 60 * n \<le> 3600 * h' + 60 * n')"
  using assms by arith

lemma stamp_order:
  assumes "fromString a = Some x" "fromString b = Some y"
    and "length a = 16" "length b = 16"
  shows "(a \<le> b) = (seconds_of x \<le> seconds_of y)"
proof -
  from assms(1) obtain Y M D H N where
    a: "a = Y @ CHR ''-'' # M @ CHR ''-'' # D @ CHR '' '' # H @ CHR '':'' # N"
    and la: "length Y = 4" "length M = 2" "length D = 2" "length H = 2" "length N = 2"
    and da: "list_all is_digit Y" "list_all is_digit M" "list_all is_digit D"
      "list_all is_digit H" "list_all is_digit N"
    and va: "validParts (int (number Y)) (int (number M)) (int (number D))"
    and ta: "number H < 24" "number N < 60"
    and x: "x = \<lparr>julian_day = julianFromParts (int (number Y)) (int (number M))
                 (int (number D)), hour = number H, minute = number N, second = 0\<rparr>"
    using assms(3) by (rule fromString_SomeE)
  from assms(2) obtain Y' M' D' H' N' where
    b: "b = Y' @ CHR ''-'' # M' @ CHR ''-'' # D' @ CHR '' '' # H' @ CHR '':'' # N'"
    and lb: "length Y' = 4" "length M' = 2" "length D' = 2" "length H' = 2" "length N' = 2"
    and db: "list_all is_digit Y'" "list_all is_digit M'" "list_all is_digit D'"
      "list_all is_digit H'" "list_all is_digit N'"
    and vb: "validParts (int (number Y')) (int (number M')) (int (number D'))"
    and tb: "number H' < 24" "number N' < 60"
    and y: "y = \<lparr>julian_day = julianFromParts (int (number Y')) (int (number M'))
                 (int (number D')), hour = number H', minute = number N', second = 0\<rparr>"
    using assms(4) by (rule fromString_SomeE)
  have cY: "(Y < Y') = (number Y < number Y')" "(Y = Y') = (number Y = number Y')"
    using digits_compare [of Y Y'] la lb da db by simp_all
  have cM: "(M < M') = (number M < number M')" "(M = M') = (number M = number M')"
    using digits_compare [of M M'] la lb da db by simp_all
  have cD: "(D < D') = (number D < number D')" "(D = D') = (number D = number D')"
    using digits_compare [of D D'] la lb da db by simp_all
  have cH: "(H < H') = (number H < number H')" "(H = H') = (number H = number H')"
    using digits_compare [of H H'] la lb da db by simp_all
  have cN: "(N < N') = (number N < number N')" "(N = N') = (number N = number N')"
    using digits_compare [of N N'] la lb da db by simp_all
  have lt: "(a < b) = (Y < Y' \<or> Y = Y' \<and> (M < M' \<or> M = M' \<and> (D < D' \<or> D = D' \<and>
          (H < H' \<or> H = H' \<and> N < N'))))"
    unfolding a b by (rule stamp_less_iff) (simp_all add: la lb)
  have eq: "(a = b) = (Y = Y' \<and> M = M' \<and> D = D' \<and> H = H' \<and> N = N')"
    unfolding a b using la lb by simp
  have le: "(a \<le> b) = (a < b \<or> a = b)"
    by (rule le_less)
  define jx where "jx = julianFromParts (int (number Y)) (int (number M)) (int (number D))"
  define jy where "jy = julianFromParts (int (number Y')) (int (number M')) (int (number D'))"
  define tx where "tx = 3600 * number H + 60 * number N"
  define ty where "ty = 3600 * number H' + 60 * number N'"
  have sx: "seconds_of x = 86400 * jx + int tx"
    unfolding x seconds_of_def jx_def tx_def by simp
  have sy: "seconds_of y = 86400 * jy + int ty"
    unfolding y seconds_of_def jy_def ty_def by simp
  have bx: "tx < 86400" and by': "ty < 86400"
    unfolding tx_def ty_def using ta tb by simp_all
  have pa: "0 < int (number Y)" and pb: "0 < int (number Y')"
    using va vb by (simp_all add: validParts_def)
  define L where "L = (number Y < number Y' \<or> number Y = number Y' \<and>
      (number M < number M' \<or> number M = number M' \<and> number D < number D'))"
  define G where "G = (number Y' < number Y \<or> number Y' = number Y \<and>
      (number M' < number M \<or> number M' = number M \<and> number D' < number D))"
  define E where "E = (number Y = number Y' \<and> number M = number M' \<and> number D = number D')"
  consider (less) L "\<not> E" "\<not> G" | (same) E "\<not> L" "\<not> G" | (greater) G "\<not> L" "\<not> E"
    unfolding L_def G_def E_def by linarith
  then show ?thesis
  proof cases
    case less
    have "jx < jy"
      unfolding jx_def jy_def using less(1) unfolding L_def
      by (intro julian_strict_mono [OF va vb pa pb]) simp
    then have "seconds_of x < seconds_of y"
      unfolding sx sy using bx by simp
    moreover have "a < b"
      unfolding lt cY cM cD cH cN using less(1) unfolding L_def by blast
    ultimately show ?thesis by simp
  next
    case same
    then have e: "number Y = number Y'" "number M = number M'" "number D = number D'"
      unfolding E_def by simp_all
    have "jx = jy" unfolding jx_def jy_def e ..
    then have "(seconds_of x \<le> seconds_of y) = (tx \<le> ty)"
      unfolding sx sy by simp
    also have "\<dots> = (number H < number H' \<or> number H = number H' \<and> number N \<le> number N')"
      unfolding tx_def ty_def by (rule time_of_day_order [OF ta(2) tb(2), symmetric])
    also have "\<dots> = (a \<le> b)"
      unfolding le lt eq cY cM cD cH cN using e by auto
    finally show ?thesis by simp
  next
    case greater
    have "jy < jx"
      unfolding jx_def jy_def using greater(1) unfolding G_def
      by (intro julian_strict_mono [OF vb va pb pa]) simp
    then have "seconds_of y < seconds_of x"
      unfolding sx sy using by' by simp
    moreover have "\<not> a \<le> b"
      unfolding le lt eq cY cM cD cH cN using greater unfolding G_def L_def E_def by auto
    ultimately show ?thesis by simp
  qed
qed

lemma stamp_order_fields:
  assumes "parse_fields False a = Some x" "parse_fields False b = Some y"
  shows "(a \<le> b) = (seconds_of x \<le> seconds_of y)"
proof -
  have la: "length a = 16" and lb: "length b = 16"
    using assms by (simp_all add: parse_fields_length)
  show ?thesis
    using assms la lb by (intro stamp_order) (simp_all add: fromString_16)
qed

text \<open>
  Claim C4. For every input, \<open>recent_events\<close> and \<open>upcoming_events\<close> are each in
  non-decreasing order of the timestamp string; and for two keys of the 16 characters
  of \<open>YYYY-MM-DD HH:MM\<close> that are timestamps (that is, two keys whose fields are read
  without a sign), the order of the strings is the order of the instants they name.
\<close>

theorem sorted_by_timestamp:
  "sorted (map datetime (recent_events (prepare_rag_context now diary events)))
   \<and> sorted (map event_datetime (upcoming_events (prepare_rag_context now diary events)))
   \<and> (parse_fields False a = Some x \<and> parse_fields False b = Some y
        \<longrightarrow> (a \<le> b) = (seconds_of x \<le> seconds_of y))
   \<and> (length a = 16 \<and> length b = 16 \<and> fromString a = Some x \<and> fromString b = Some y
        \<longrightarrow> (a \<le> b) = (seconds_of x \<le> seconds_of y))"
  by (simp add: prepare_rag_context_def sorted_sort_key stamp_order stamp_order_fields)

theorem sorted_by_timestamp_witness:
  "length ''2024-06-15 20:00'' = 16
   \<and> length ''2024-06-10 09:00'' = 16
   \<and> fromString ''2024-06-15 20:00''
     = Some \<lparr>julian_day = 2460477, hour = 20, minute = 0, second = 0\<rparr>
   \<and> fromString ''2024-06-10 09:00''
     = Some \<lparr>julian_day = 2460472, hour = 9, minute = 0, second = 0\<rparr>
   \<and> parse_fields False ''2024-06-15 20:00''
     = Some \<lparr>julian_day = 2460477, hour = 20, minute = 0, second = 0\<rparr>
   \<and> parse_fields False ''2024-06-10 09:00''
     = Some \<lparr>julian_day = 2460472, hour = 9, minute = 0, second = 0\<rparr>
   \<and> (''2024-06-15 20:00'' \<le> ''2024-06-10 09:00'')
     = (seconds_of \<lparr>julian_day = 2460477, hour = 20, minute = 0, second = 0\<rparr>
        \<le> seconds_of \<lparr>julian_day = 2460472, hour = 9, minute = 0, second = 0\<rparr>)
   \<and> \<not> ''2024-06-15 20:00'' \<le> ''2024-06-10 09:00''
   \<and> sorted (map datetime (recent_events (prepare_rag_context
        (fromString ''2024-06-10 09:00'')
        [(''2024-06-15 20:00'', ''later''), (''2024-06-10 09:00'', ''now'')] [])))
   \<and> map datetime (recent_events (prepare_rag_context (fromString ''2024-06-10 09:00'')
        [(''2024-06-15 20:00'', ''later''), (''2024-06-10 09:00'', ''now'')] []))
     = [''2024-06-10 09:00'', ''2024-06-15 20:00'']"
proof -
  have p15: "parse_fields False ''2024-06-15 20:00''
      = Some \<lparr>julian_day = 2460477, hour = 20, minute = 0, second = 0\<rparr>"
    using fromString_2024_06_15 by (simp add: fromString_def)
  have p10: "parse_fields False ''2024-06-10 09:00''
      = Some \<lparr>julian_day = 2460472, hour = 9, minute = 0, second = 0\<rparr>"
    using fromString_2024_06_10 by (simp add: fromString_def)
  show ?thesis
    using fromString_2024_06_15 fromString_2024_06_10 p15 p10
      sorted_by_timestamp [of "fromString ''2024-06-10 09:00''"
        "[(''2024-06-15 20:00'', ''later''), (''2024-06-10 09:00'', ''now'')]" "[]"
        "''2024-06-15 20:00''" "\<lparr>julian_day = 2460477, hour = 20, minute = 0, second = 0\<rparr>"
        "''2024-06-10 09:00''" "\<lparr>julian_day = 2460472, hour = 9, minute = 0, second = 0\<rparr>"]
    by (simp add: prepare_rag_context_def)
qed

text \<open>
  With a sign the order of the strings is not the order of the years: the year -2006 is
  before the year -2005, and its text comes after.
\<close>

lemma negative_years_in_text_order:
  "''-2005-05-21 10:00'' \<le> ''-2006-05-21 10:00''"
  by simp

end
